theory Spec2Isabelle
  imports Complex_Main "HOL-Library.Signed_Division" "HOL-Library.Multiset"
begin

section \<open>Machine integers\<close>

text \<open>
  The kernels compute with the C type \<open>int\<close> (32 bits, two's complement). A value is an
  \<open>int\<close> of HOL and every arithmetic operation of the source wraps its result back
  into the 32-bit range. Division truncates towards zero (\<open>sdiv\<close>).
\<close>

definition i32 :: "int \<Rightarrow> int" where
  "i32 k = signed_take_bit 31 k"

definition fits32 :: "int \<Rightarrow> bool" where
  "fits32 k \<longleftrightarrow> - 2147483648 \<le> k \<and> k < 2147483648"

definition add32 :: "int \<Rightarrow> int \<Rightarrow> int" where
  "add32 a b = i32 (a + b)"

definition sub32 :: "int \<Rightarrow> int \<Rightarrow> int" where
  "sub32 a b = i32 (a - b)"

definition mul32 :: "int \<Rightarrow> int \<Rightarrow> int" where
  "mul32 a b = i32 (a * b)"

definition div32 :: "int \<Rightarrow> int \<Rightarrow> int" where
  "div32 a b = i32 (a sdiv b)"

section \<open>Floating-point values\<close>

text \<open>
  A \<open>float\<close> of the source is a finite number, one of the two infinities, or NaN.
  Finite arithmetic is exact here: rounding to 24 bits, overflow to infinity and the sign
  of zero are not modelled (every zero is the positive zero; the only zero divisors of the
  kernels are converted integers, which are positive zeros). Division by zero, the
  arithmetic of the infinities and the propagation of NaN follow IEEE 754.
\<close>

datatype cfloat = Fin rat | PInf | NInf | NaN

fun is_fin :: "cfloat \<Rightarrow> bool" where
  "is_fin (Fin q) = True"
| "is_fin f = False"


definition int_to_float :: "int \<Rightarrow> cfloat" where
  "int_to_float k = Fin (of_int k)"

fun fneg :: "cfloat \<Rightarrow> cfloat" where
  "fneg (Fin a) = Fin (- a)"
| "fneg PInf = NInf"
| "fneg NInf = PInf"
| "fneg NaN = NaN"

fun fadd :: "cfloat \<Rightarrow> cfloat \<Rightarrow> cfloat" where
  "fadd (Fin a) (Fin b) = Fin (a + b)"
| "fadd NaN f = NaN"
| "fadd f NaN = NaN"
| "fadd PInf NInf = NaN"
| "fadd NInf PInf = NaN"
| "fadd PInf f = PInf"
| "fadd f PInf = PInf"
| "fadd NInf f = NInf"
| "fadd f NInf = NInf"

definition fsub :: "cfloat \<Rightarrow> cfloat \<Rightarrow> cfloat" where
  "fsub a b = fadd a (fneg b)"

fun fmul :: "cfloat \<Rightarrow> cfloat \<Rightarrow> cfloat" where
  "fmul (Fin a) (Fin b) = Fin (a * b)"
| "fmul NaN f = NaN"
| "fmul f NaN = NaN"
| "fmul (Fin a) PInf = (if a = 0 then NaN else if 0 < a then PInf else NInf)"
| "fmul (Fin a) NInf = (if a = 0 then NaN else if 0 < a then NInf else PInf)"
| "fmul PInf (Fin b) = (if b = 0 then NaN else if 0 < b then PInf else NInf)"
| "fmul NInf (Fin b) = (if b = 0 then NaN else if 0 < b then NInf else PInf)"
| "fmul PInf PInf = PInf"
| "fmul PInf NInf = NInf"
| "fmul NInf PInf = NInf"
| "fmul NInf NInf = PInf"

fun fdiv :: "cfloat \<Rightarrow> cfloat \<Rightarrow> cfloat" where
  "fdiv (Fin a) (Fin b) =
     (if b = 0 then (if a = 0 then NaN else if 0 < a then PInf else NInf)
      else Fin (a / b))"
| "fdiv NaN f = NaN"
| "fdiv f NaN = NaN"
| "fdiv (Fin a) PInf = Fin 0"
| "fdiv (Fin a) NInf = Fin 0"
| "fdiv PInf (Fin b) = (if 0 \<le> b then PInf else NInf)"
| "fdiv NInf (Fin b) = (if 0 \<le> b then NInf else PInf)"
| "fdiv PInf f = NaN"
| "fdiv NInf f = NaN"

text \<open>The comparison \<open>a > b\<close> of the source: false as soon as one side is NaN.\<close>

fun fgt :: "cfloat \<Rightarrow> cfloat \<Rightarrow> bool" where
  "fgt (Fin a) (Fin b) = (b < a)"
| "fgt NaN f = False"
| "fgt f NaN = False"
| "fgt PInf PInf = False"
| "fgt PInf f = True"
| "fgt f PInf = False"
| "fgt NInf f = False"
| "fgt f NInf = True"

text \<open>The comparison \<open>a >= b\<close>, likewise false on NaN.\<close>

definition fge :: "cfloat \<Rightarrow> cfloat \<Rightarrow> bool" where
  "fge a b \<longleftrightarrow> a \<noteq> NaN \<and> b \<noteq> NaN \<and> \<not> fgt b a"

section \<open>Helpers of the utility headers\<close>

text \<open>
  Modelled from the spec: the helpers \<open>max\<close>, \<open>min\<close> and \<open>align_up\<close> come from the
  utility headers of Cycles, which are not among the sources. On integers \<open>max\<close> and
  \<open>min\<close> are those of HOL. On floats \<open>max(a, b)\<close> is the conditional \<open>a > b ? a : b\<close>,
  which answers \<open>b\<close> when a comparison with NaN fails. \<open>align_up\<close> rounds a width up
  to the next multiple of the alignment.
\<close>

definition fmax :: "cfloat \<Rightarrow> cfloat \<Rightarrow> cfloat" where
  "fmax a b = (if fgt a b then a else b)"

definition align_up :: "int \<Rightarrow> int \<Rightarrow> int" where
  "align_up offset alignment = i32 (((offset + alignment - 1) div alignment) * alignment)"

section \<open>Memory, tiles and rectangles\<close>

text \<open>
  Global memory is a store of floats. An address counts float cells, a pointer is an
  address, and \<open>p[i]\<close> is the cell \<open>p + i\<close>. Arrays that overlap share cells, so what a
  kernel does to aliased buffers is what the store says.
\<close>

type_synonym addr = int
type_synonym mem = "addr \<Rightarrow> cfloat"

text \<open>
  Modelled from the spec: the structures \<open>TilesInfo\<close> (a 3 by 3 grid of tiles: the split
  coordinates of each axis and, per tile, offset, stride and buffer) and \<open>int4\<close> (the
  rectangle: lower bounds x, y inclusive, upper bounds z, w exclusive) are declared in
  headers that are not among the sources. The arrays \<open>x\<close> and \<open>y\<close> of \<open>TilesInfo\<close> are
  the fields \<open>tiles_x\<close> and \<open>tiles_y\<close>, the components of \<open>int4\<close> the fields
  \<open>int4_x\<close> to \<open>int4_w\<close>; a buffer of a tile is the address of its first float.
\<close>

record TilesInfo =
  offsets :: "int list"
  strides :: "int list"
  tiles_x :: "int list"
  tiles_y :: "int list"
  buffers :: "addr list"

record int4 =
  int4_x :: int
  int4_y :: int
  int4_z :: int
  int4_w :: int

section \<open>The prefilter kernels\<close>

text \<open>The tile of a pixel: \<open>ytile*3+xtile\<close>, each from two comparisons.\<close>

definition tile_of :: "TilesInfo \<Rightarrow> int \<Rightarrow> int \<Rightarrow> int" where
  "tile_of tiles x y =
     (let xtile = (if x < tiles_x tiles ! 1 then 0 else (if x < tiles_x tiles ! 2 then 1 else 2));
          ytile = (if y < tiles_y tiles ! 1 then 0 else (if y < tiles_y tiles ! 2 then 1 else 2))
      in add32 (mul32 ytile 3) xtile)"

text \<open>
  The index of a pixel in rectangle space, \<open>(py-rect.y)*buffer_w + (px-rect.x)\<close>, and
  the index of the kernel's own pixel, with \<open>buffer_w = align_up(rect.z - rect.x, 4)\<close>.
\<close>

definition pixel_idx :: "int4 \<Rightarrow> int \<Rightarrow> int \<Rightarrow> int \<Rightarrow> int" where
  "pixel_idx rect buffer_w px py =
     add32 (mul32 (sub32 py (int4_y rect)) buffer_w) (sub32 px (int4_x rect))"

definition rect_idx :: "int4 \<Rightarrow> int \<Rightarrow> int \<Rightarrow> int" where
  "rect_idx rect x y =
     (let buffer_w = align_up (sub32 (int4_z rect) (int4_x rect)) 4
      in pixel_idx rect buffer_w x y)"

text \<open>The two sub-sample counts of the shadow pass.\<close>

definition odd_sample :: "int \<Rightarrow> int" where
  "odd_sample sample = div32 (add32 sample 1) 2"

definition even_sample :: "int \<Rightarrow> int" where
  "even_sample sample = div32 sample 2"

text \<open>
  The record of a pixel in the buffer of its tile, and the record of the shadow feature:
  the pixel's record advanced by the denoising offset and 14.
\<close>

definition shadow_pixel_record :: "TilesInfo \<Rightarrow> int \<Rightarrow> int \<Rightarrow> int \<Rightarrow> addr" where
  "shadow_pixel_record tiles x y buffer_pass_stride =
     (let tile = tile_of tiles x y;
          offset = offsets tiles ! nat tile;
          stride = strides tiles ! nat tile;
          center_buffer = buffers tiles ! nat tile
      in center_buffer + mul32 (add32 (add32 (mul32 y stride) x) offset) buffer_pass_stride)"

definition shadow_center_buffer :: "TilesInfo \<Rightarrow> int \<Rightarrow> int \<Rightarrow> int \<Rightarrow> int \<Rightarrow> addr" where
  "shadow_center_buffer tiles x y buffer_pass_stride buffer_denoising_offset =
     (let center_buffer = shadow_pixel_record tiles x y buffer_pass_stride
      in center_buffer + add32 buffer_denoising_offset 14)"

definition kernel_filter_divide_shadow ::
  "int \<Rightarrow> TilesInfo \<Rightarrow> int \<Rightarrow> int \<Rightarrow> addr \<Rightarrow> addr \<Rightarrow> addr \<Rightarrow> addr \<Rightarrow> addr \<Rightarrow> int4 \<Rightarrow>
   int \<Rightarrow> int \<Rightarrow> bool \<Rightarrow> mem \<Rightarrow> mem" where
  "kernel_filter_divide_shadow sample tiles x y unfilteredA unfilteredB sampleVariance
       sampleVarianceV bufferVariance rect buffer_pass_stride buffer_denoising_offset
       use_split_variance m0 =
     (let center_buffer =
            shadow_center_buffer tiles x y buffer_pass_stride buffer_denoising_offset;
          idx = rect_idx rect x y;
          m1 = m0(unfilteredA + idx :=
                 fdiv (m0 (center_buffer + 1)) (fmax (m0 (center_buffer + 0)) (Fin (1 / 10000000))));
          m2 = m1(unfilteredB + idx :=
                 fdiv (m1 (center_buffer + 4)) (fmax (m1 (center_buffer + 3)) (Fin (1 / 10000000))));
          varA = m2 (center_buffer + 2);
          varB = m2 (center_buffer + 5);
          varA = (if use_split_variance
                  then fmax (Fin 0) (fsub varA
                         (fmul (fmul (m2 (unfilteredA + idx)) (m2 (unfilteredA + idx)))
                               (int_to_float (odd_sample sample))))
                  else varA);
          varB = (if use_split_variance
                  then fmax (Fin 0) (fsub varB
                         (fmul (fmul (m2 (unfilteredB + idx)) (m2 (unfilteredB + idx)))
                               (int_to_float (even_sample sample))))
                  else varB);
          varA = fdiv varA (int_to_float (sub32 (odd_sample sample) 1));
          varB = fdiv varB (int_to_float (sub32 (even_sample sample) 1));
          m3 = m2(sampleVariance + idx :=
                 fdiv (fmul (Fin (1 / 2)) (fadd varA varB)) (int_to_float sample));
          m4 = m3(sampleVarianceV + idx :=
                 fdiv (fmul (fmul (Fin (1 / 2)) (fsub varA varB)) (fsub varA varB))
                      (int_to_float (mul32 sample sample)))
      in m4(bufferVariance + idx :=
              fmul (fmul (Fin (1 / 2)) (fsub (m4 (unfilteredA + idx)) (m4 (unfilteredB + idx))))
                   (fsub (m4 (unfilteredA + idx)) (m4 (unfilteredB + idx)))))"



text \<open>
  The half combiner. Its local array \<open>values\<close> has 25 cells, of which the first
  \<open>numValues\<close> are initialised: the model keeps the initialised cells as a list, and a
  write past the 25th cell or a read of a cell that was never written has no result
  (\<open>None\<close>). The loop counters \<open>px\<close>, \<open>py\<close> and \<open>i\<close> stay below a bound that is an
  \<open>int\<close>, so their increments do not wrap.
\<close>

function gather_px ::
  "mem \<Rightarrow> addr \<Rightarrow> addr \<Rightarrow> int4 \<Rightarrow> int \<Rightarrow> int \<Rightarrow> int \<Rightarrow> int \<Rightarrow> int \<Rightarrow> cfloat list
   \<Rightarrow> cfloat list option" where
  "gather_px m a b rect buffer_w x r py px values =
     (if px < min (add32 (add32 x r) 1) (int4_z rect)
      then (let pidx = pixel_idx rect buffer_w px py
            in if length values < 25
               then gather_px m a b rect buffer_w x r py (px + 1)
                      (values @ [fmul (fmul (Fin (1 / 4)) (fsub (m (a + pidx)) (m (b + pidx))))
                                      (fsub (m (a + pidx)) (m (b + pidx)))])
               else None)
      else Some values)"
  by pat_completeness auto
termination
  by (relation "measure (\<lambda>(m, a, b, rect, buffer_w, x, r, py, px, values).
        nat (min (add32 (add32 x r) 1) (int4_z rect) - px))") auto

function gather_py ::
  "mem \<Rightarrow> addr \<Rightarrow> addr \<Rightarrow> int4 \<Rightarrow> int \<Rightarrow> int \<Rightarrow> int \<Rightarrow> int \<Rightarrow> int \<Rightarrow> cfloat list
   \<Rightarrow> cfloat list option" where
  "gather_py m a b rect buffer_w x y r py values =
     (if py < min (add32 (add32 y r) 1) (int4_w rect)
      then (case gather_px m a b rect buffer_w x r py (max (sub32 x r) (int4_x rect)) values of
              None \<Rightarrow> None
            | Some values' \<Rightarrow> gather_py m a b rect buffer_w x y r (py + 1) values')
      else Some values)"
  by pat_completeness auto
termination
  by (relation "measure (\<lambda>(m, a, b, rect, buffer_w, x, y, r, py, values).
        nat (min (add32 (add32 y r) 1) (int4_w rect) - py))") auto

text \<open>
  The insertion sort: the inner loop moves the cells greater than \<open>v\<close> one place up and
  returns the array with the final \<open>j\<close>; the outer loop puts \<open>v\<close> at \<open>j+1\<close>. The guards
  \<open>i < numValues\<close> and \<open>j >= 0\<close> keep every index among the initialised cells.
\<close>

function shift_greater :: "cfloat list \<Rightarrow> cfloat \<Rightarrow> int \<Rightarrow> cfloat list \<times> int" where
  "shift_greater values v j =
     (if 0 \<le> j \<and> fgt (values ! nat j) v
      then shift_greater (values[nat (j + 1) := values ! nat j]) v (j - 1)
      else (values, j))"
  by pat_completeness auto
termination
  by (relation "measure (\<lambda>(values, v, j). nat (j + 1))") auto

function insertion_sort :: "cfloat list \<Rightarrow> int \<Rightarrow> int \<Rightarrow> cfloat list" where
  "insertion_sort values numValues i =
     (if i < numValues
      then (let v = values ! nat i;
                (values', j) = shift_greater values v (i - 1)
            in insertion_sort (values'[nat (j + 1) := v]) numValues (i + 1))
      else values)"
  by pat_completeness auto
termination
  by (relation "measure (\<lambda>(values, numValues, i). nat (numValues - i))") auto

definition rank_index :: "int \<Rightarrow> int" where
  "rank_index numValues = div32 (mul32 7 numValues) 8"

text \<open>The null pointer is the address 0.\<close>

definition kernel_filter_combine_halves ::
  "int \<Rightarrow> int \<Rightarrow> addr \<Rightarrow> addr \<Rightarrow> addr \<Rightarrow> addr \<Rightarrow> int4 \<Rightarrow> int \<Rightarrow> mem \<Rightarrow> mem option" where
  "kernel_filter_combine_halves x y mean variance a b rect r m0 =
     (let buffer_w = align_up (sub32 (int4_z rect) (int4_x rect)) 4;
          idx = pixel_idx rect buffer_w x y;
          m1 = (if mean \<noteq> 0
                then m0(mean + idx := fmul (Fin (1 / 2)) (fadd (m0 (a + idx)) (m0 (b + idx))))
                else m0)
      in if variance \<noteq> 0
         then (if r = 0
               then Some (m1(variance + idx :=
                            fmul (fmul (Fin (1 / 4)) (fsub (m1 (a + idx)) (m1 (b + idx))))
                                 (fsub (m1 (a + idx)) (m1 (b + idx)))))
               else (let m2 = m1(variance + idx := Fin 0)
                     in case gather_py m2 a b rect buffer_w x y r
                               (max (sub32 y r) (int4_y rect)) [] of
                          None \<Rightarrow> None
                        | Some values \<Rightarrow>
                            (let numValues = int (length values);
                                 values = insertion_sort values numValues 1;
                                 k = rank_index numValues
                             in if 0 \<le> k \<and> k < numValues
                                then Some (m2(variance + idx := values ! nat k))
                                else None)))
         else Some m1)"

text \<open>
  The defining equations of the four recursive functions are used one step at a time, never
  as rewrite rules.
\<close>

declare gather_px.simps [simp del] gather_py.simps [simp del]
  shift_greater.simps [simp del] insertion_sort.simps [simp del]

section \<open>The reader of custom data layers\<close>

text \<open>
  Modelled from the spec: the property store is the Alembic library, and the result
  codes, the layer types and the layer functions of Blender are declared in headers
  that are not among the sources. Of the store the model keeps what the reader asks:
  the number of elements of the array sample stored under a property name, and the
  names of the properties of a compound (\<open>None\<close> when there is no such compound). Of the
  result codes it keeps the two that the reader returns. The layer types are their
  numbers in \<open>DNA_customdata_types.h\<close>. The copy of a sample into the layer, which
  follows a successful size check, is not modelled: a read is its result code.
\<close>

datatype PTCReadSampleResult = PTC_READ_SAMPLE_INVALID | PTC_READ_SAMPLE_EXACT

record property_store =
  sample_size :: "string \<Rightarrow> nat"
  compound_properties :: "string \<Rightarrow> string list option"

definition CD_MDEFORMVERT :: int where "CD_MDEFORMVERT = 2"
definition CD_MCOL :: int where "CD_MCOL = 6"
definition CD_ORIGINDEX :: int where "CD_ORIGINDEX = 7"
definition CD_ORIGSPACE :: int where "CD_ORIGSPACE = 13"
definition CD_NUMTYPES :: int where "CD_NUMTYPES = 42"
definition MAX_CUSTOMDATA_LAYER_NAME :: nat where "MAX_CUSTOMDATA_LAYER_NAME = 64"

text \<open>
  The specialisations of \<open>read_sample\<close>. The comparison \<open>sample->size() != num_data\<close>
  converts \<open>num_data\<close> to an unsigned size, so a negative \<open>num_data\<close> differs from every
  size, as it does here.
\<close>

definition read_sample_MDEFORMVERT :: "property_store \<Rightarrow> string \<Rightarrow> int \<Rightarrow> PTCReadSampleResult" where
  "read_sample_MDEFORMVERT store name num_data =
     (if int (sample_size store (name @ '':totweight'')) \<noteq> num_data
         \<or> int (sample_size store (name @ '':flag'')) \<noteq> num_data
      then PTC_READ_SAMPLE_INVALID
      else PTC_READ_SAMPLE_EXACT)"

definition read_sample_MCOL :: "property_store \<Rightarrow> string \<Rightarrow> int \<Rightarrow> PTCReadSampleResult" where
  "read_sample_MCOL store name num_data =
     (if int (sample_size store name) \<noteq> num_data
      then PTC_READ_SAMPLE_INVALID
      else PTC_READ_SAMPLE_EXACT)"

definition read_sample_ORIGINDEX :: "property_store \<Rightarrow> string \<Rightarrow> int \<Rightarrow> PTCReadSampleResult" where
  "read_sample_ORIGINDEX store name num_data =
     (if int (sample_size store name) \<noteq> num_data
      then PTC_READ_SAMPLE_INVALID
      else PTC_READ_SAMPLE_EXACT)"

definition read_sample_ORIGSPACE :: "property_store \<Rightarrow> string \<Rightarrow> int \<Rightarrow> PTCReadSampleResult" where
  "read_sample_ORIGSPACE store name num_data =
     (if int (sample_size store (name @ '':uv0'')) \<noteq> num_data
         \<or> int (sample_size store (name @ '':uv1'')) \<noteq> num_data
         \<or> int (sample_size store (name @ '':uv2'')) \<noteq> num_data
         \<or> int (sample_size store (name @ '':uv3'')) \<noteq> num_data
      then PTC_READ_SAMPLE_INVALID
      else PTC_READ_SAMPLE_EXACT)"

text \<open>
  The template \<open>read_sample<CDTYPE>\<close>: one of the four specialisations, or the general
  template, which has no implementation and answers invalid.
\<close>

definition read_sample :: "int \<Rightarrow> property_store \<Rightarrow> string \<Rightarrow> int \<Rightarrow> PTCReadSampleResult" where
  "read_sample CDTYPE store name num_data =
     (if CDTYPE = CD_MDEFORMVERT then read_sample_MDEFORMVERT store name num_data
      else if CDTYPE = CD_MCOL then read_sample_MCOL store name num_data
      else if CDTYPE = CD_ORIGINDEX then read_sample_ORIGINDEX store name num_data
      else if CDTYPE = CD_ORIGSPACE then read_sample_ORIGSPACE store name num_data
      else PTC_READ_SAMPLE_INVALID)"

text \<open>
  The recursive template \<open>read_sample_call<CDTYPE>\<close>, which the reader enters at 0; its
  specialisation at \<open>CD_NUMTYPES\<close> ends the recursion with the invalid result.
\<close>

function read_sample_call ::
  "int \<Rightarrow> property_store \<Rightarrow> int \<Rightarrow> string \<Rightarrow> int \<Rightarrow> PTCReadSampleResult" where
  "read_sample_call CDTYPE store type name num_data =
     (if CD_NUMTYPES \<le> CDTYPE then PTC_READ_SAMPLE_INVALID
      else if type = CDTYPE then read_sample CDTYPE store name num_data
      else read_sample_call (CDTYPE + 1) store type name num_data)"
  by pat_completeness auto
termination
  by (relation "measure (\<lambda>(CDTYPE, store, type, name, num_data). nat (CD_NUMTYPES - CDTYPE))")
    auto

text \<open>
  The reader and the layers it adds to the custom data: the type and the name of each
  layer (the empty name for an unnamed layer).
\<close>

record CustomDataReader =
  m_name :: string
  m_cdmask :: nat

type_synonym CustomData = "(int \<times> string) list"

text \<open>
  \<open>cdtype_from_name\<close>, with the name of the layer type as a parameter. It gives the
  layer name; the index \<open>n\<close> that the source parses beside it is not used by the reader
  and is left out.
\<close>

definition cdtype_from_name :: "(int \<Rightarrow> string) \<Rightarrow> CustomDataReader \<Rightarrow> string \<Rightarrow> int \<Rightarrow> string" where
  "cdtype_from_name layertype_name reader name type =
     (let start = length (m_name reader) + 1 + length (layertype_name type) + 1
      in if length name \<le> start then ''''
         else if name ! start = CHR ''S''
         then take (MAX_CUSTOMDATA_LAYER_NAME - 1) (drop (start + 1) name)
         else if name ! start = CHR ''N'' then ''''
         else '''')"

text \<open>
  The loop over the properties of one layer type: every property adds a layer and is
  read; the result of the read is dropped, as in the source.
\<close>

fun read_layers ::
  "(int \<Rightarrow> string) \<Rightarrow> CustomDataReader \<Rightarrow> property_store \<Rightarrow> int \<Rightarrow> int \<Rightarrow> string list
   \<Rightarrow> CustomData \<Rightarrow> CustomData" where
  "read_layers layertype_name reader store type num_data [] cdata = cdata"
| "read_layers layertype_name reader store type num_data (name # names) cdata =
     (let layer_name = cdtype_from_name layertype_name reader name type;
          cdata = cdata @ [(type, layer_name)];
          dropped = read_sample_call 0 store type name num_data
      in read_layers layertype_name reader store type num_data names cdata)"

text \<open>
  The loop over the layer types, from \<open>type\<close> on. \<open>shift_mask type\<close> is the value of
  \<open>1 << type\<close> as a mask (\<open>2^type\<close> below 31; the shift is undefined from 32 on, so the
  masks are a parameter).
\<close>

function read_types ::
  "(int \<Rightarrow> string) \<Rightarrow> (int \<Rightarrow> nat) \<Rightarrow> CustomDataReader \<Rightarrow> property_store \<Rightarrow> int \<Rightarrow> int
   \<Rightarrow> CustomData \<Rightarrow> CustomData" where
  "read_types layertype_name shift_mask reader store num_data type cdata =
     (if type < CD_NUMTYPES
      then (if and (shift_mask type) (m_cdmask reader) = 0
            then read_types layertype_name shift_mask reader store num_data (type + 1) cdata
            else (case compound_properties store
                         (m_name reader @ '':'' @ layertype_name type) of
                    None \<Rightarrow>
                      read_types layertype_name shift_mask reader store num_data (type + 1) cdata
                  | Some names \<Rightarrow>
                      read_types layertype_name shift_mask reader store num_data (type + 1)
                        (read_layers layertype_name reader store type num_data names cdata)))
      else cdata)"
  by pat_completeness auto
termination
  by (relation "measure (\<lambda>(layertype_name, shift_mask, reader, store, num_data, type, cdata).
        nat (CD_NUMTYPES - type))") auto

definition CustomDataReader_read_sample ::
  "(int \<Rightarrow> string) \<Rightarrow> (int \<Rightarrow> nat) \<Rightarrow> CustomDataReader \<Rightarrow> property_store \<Rightarrow> CustomData \<Rightarrow> int
   \<Rightarrow> PTCReadSampleResult \<times> CustomData" where
  "CustomDataReader_read_sample layertype_name shift_mask reader store cdata num_data =
     (let cdata = read_types layertype_name shift_mask reader store num_data 0 cdata
      in (PTC_READ_SAMPLE_EXACT, cdata))"

declare read_sample_call.simps [simp del] read_types.simps [simp del]

text \<open>
  A store with one colour layer of three elements, and a reader for colour layers.
\<close>

definition store0 :: property_store where
  "store0 = \<lparr>sample_size = (\<lambda>name. 3),
             compound_properties =
               (\<lambda>name. if name = ''cd:MCol'' then Some [''cd:MCol:N0''] else None)\<rparr>"

definition reader0 :: CustomDataReader where
  "reader0 = \<lparr>m_name = ''cd'', m_cdmask = 64\<rparr>"

definition layertype_name0 :: "int \<Rightarrow> string" where
  "layertype_name0 type = (if type = 6 then ''MCol'' else ''Other'')"

definition shift_mask0 :: "int \<Rightarrow> nat" where
  "shift_mask0 type = 2 ^ nat type"

section \<open>Rectangle space as the specification words it\<close>

text \<open>
  The index \<open>idx = (y-rect.y)*align_up(rect.z-rect.x,4)+(x-rect.x)\<close> in plain integer
  arithmetic, the pixels inside a rectangle, and the rectangles whose padded area can be
  indexed by an \<open>int\<close> (the coordinates are 32-bit values and
  \<open>(rect.w-rect.y)*(rect.z-rect.x+4)\<close> stays below \<open>2^31\<close>).
\<close>

definition rect_index_spec :: "int4 \<Rightarrow> int \<Rightarrow> int \<Rightarrow> int" where
  "rect_index_spec rect x y =
     (y - int4_y rect) * align_up (int4_z rect - int4_x rect) 4 + (x - int4_x rect)"

definition in_rect :: "int4 \<Rightarrow> int \<Rightarrow> int \<Rightarrow> bool" where
  "in_rect rect x y \<longleftrightarrow>
     int4_x rect \<le> x \<and> x < int4_z rect \<and> int4_y rect \<le> y \<and> y < int4_w rect"

definition rect_ok :: "int4 \<Rightarrow> bool" where
  "rect_ok rect \<longleftrightarrow>
     fits32 (int4_x rect) \<and> fits32 (int4_y rect) \<and> fits32 (int4_z rect) \<and> fits32 (int4_w rect)
     \<and> (int4_w rect - int4_y rect) * (int4_z rect - int4_x rect + 4) < 2147483648"

text \<open>
  The window of the half combiner as the specification words it: the square
  \<open>[x-r, x+r] \<times> [y-r, y+r]\<close> clipped to the rectangle, row by row, and the values
  \<open>0.25*(a[p]-b[p])^2\<close> of its pixels. \<open>window_ok\<close> says that the four window bounds
  the kernel computes are \<open>int\<close> values; \<open>window_disjoint\<close> that no cell of \<open>a\<close> or
  \<open>b\<close> under the window is one of the given cells.
\<close>

definition half_variance :: "mem \<Rightarrow> addr \<Rightarrow> addr \<Rightarrow> int \<Rightarrow> cfloat" where
  "half_variance m a b pidx =
     fmul (fmul (Fin (1 / 4)) (fsub (m (a + pidx)) (m (b + pidx))))
          (fsub (m (a + pidx)) (m (b + pidx)))"

definition window_cols :: "int4 \<Rightarrow> int \<Rightarrow> int \<Rightarrow> int list" where
  "window_cols rect x r = [max (x - r) (int4_x rect) .. min (x + r) (int4_z rect - 1)]"

definition window_rows :: "int4 \<Rightarrow> int \<Rightarrow> int \<Rightarrow> int list" where
  "window_rows rect y r = [max (y - r) (int4_y rect) .. min (y + r) (int4_w rect - 1)]"

definition window_pixels :: "int4 \<Rightarrow> int \<Rightarrow> int \<Rightarrow> int \<Rightarrow> (int \<times> int) list" where
  "window_pixels rect x y r =
     concat (map (\<lambda>py. map (\<lambda>px. (px, py)) (window_cols rect x r)) (window_rows rect y r))"

definition window_values :: "mem \<Rightarrow> addr \<Rightarrow> addr \<Rightarrow> int4 \<Rightarrow> int \<Rightarrow> int \<Rightarrow> int \<Rightarrow> cfloat list" where
  "window_values m a b rect x y r =
     map (\<lambda>(px, py). half_variance m a b (rect_index_spec rect px py)) (window_pixels rect x y r)"

definition window_ok :: "int \<Rightarrow> int \<Rightarrow> int \<Rightarrow> bool" where
  "window_ok x y r \<longleftrightarrow>
     fits32 (x - r) \<and> fits32 (x + r + 1) \<and> fits32 (y - r) \<and> fits32 (y + r + 1)"



section \<open>Test data\<close>

text \<open>
  A tile layout whose centre tile holds the pixels \<open>0..7\<close> of both axes in a buffer at
  address 1000, a rectangle of 4 by 4 pixels, and a store with the shadow record
  \<open>[2, 4, 9, 2, 4, 9]\<close> of pixel (0, 0) at 1014.
\<close>

definition tiles0 :: TilesInfo where
  "tiles0 = \<lparr>offsets = [0, 0, 0, 0, 0, 0, 0, 0, 0],
             strides = [8, 8, 8, 8, 8, 8, 8, 8, 8],
             tiles_x = [0, 0, 8, 8],
             tiles_y = [0, 0, 8, 8],
             buffers = [0, 0, 0, 0, 1000, 0, 0, 0, 0]\<rparr>"

definition rect0 :: int4 where
  "rect0 = \<lparr>int4_x = 0, int4_y = 0, int4_z = 4, int4_w = 4\<rparr>"

definition mem0 :: mem where
  "mem0 = (\<lambda>c. Fin 0)(1014 := Fin 2, 1015 := Fin 4, 1016 := Fin 9,
                        1017 := Fin 2, 1018 := Fin 4, 1019 := Fin 9)"

text \<open>A rectangle of a single pixel.\<close>

definition rect1 :: int4 where
  "rect1 = \<lparr>int4_x = 0, int4_y = 0, int4_z = 1, int4_w = 1\<rparr>"




definition mem_zero :: mem where
  "mem_zero = (\<lambda>c. Fin 0)"

section \<open>Facts about the machine integers\<close>

lemma i32_id: "fits32 k \<Longrightarrow> i32 k = k"
  unfolding i32_def fits32_def
  by (rule signed_take_bit_int_eq_self) simp_all

lemma fits32_i32: "fits32 (i32 k)"
  unfolding i32_def fits32_def
  using signed_take_bit_int_greater_eq_minus_exp [of 31 k]
    signed_take_bit_int_less_exp [of 31 k]
  by simp

lemma odd_sample_eq:
  assumes "0 \<le> sample" "sample < 2147483647"
  shows "odd_sample sample = (sample + 1) div 2"
proof -
  have a: "i32 (sample + 1) = sample + 1"
    using assms by (intro i32_id) (simp add: fits32_def)
  have b: "(sample + 1) sdiv 2 = (sample + 1) div 2"
    using assms by (simp add: signed_divide_int_def sgn_if)
  have c: "fits32 ((sample + 1) div 2)"
    using assms unfolding fits32_def by linarith
  show ?thesis
    by (simp add: odd_sample_def div32_def add32_def a b i32_id [OF c])
qed

lemma even_sample_eq:
  assumes "0 \<le> sample" "sample < 2147483648"
  shows "even_sample sample = sample div 2"
proof -
  have b: "sample sdiv 2 = sample div 2"
    using assms by (simp add: signed_divide_int_def sgn_if)
  have c: "fits32 (sample div 2)"
    using assms unfolding fits32_def by linarith
  show ?thesis
    by (simp add: even_sample_def div32_def b i32_id [OF c])
qed

text \<open>The tile index stays inside the nine entries of the tile arrays.\<close>

lemma tile_of_range: "0 \<le> tile_of tiles x y \<and> tile_of tiles x y \<le> 8"
  by (simp add: tile_of_def Let_def add32_def mul32_def i32_def)

section \<open>Rectangle indices\<close>

lemma align_up_4:
  assumes "0 \<le> w" "w + 3 < 2147483648"
  shows "align_up w 4 = ((w + 3) div 4) * 4" "w \<le> align_up w 4" "align_up w 4 \<le> w + 3"
proof -
  have f: "fits32 (((w + 3) div 4) * 4)"
    using assms unfolding fits32_def by linarith
  show e: "align_up w 4 = ((w + 3) div 4) * 4"
    using i32_id [OF f] by (simp add: align_up_def add.commute)
  show "w \<le> align_up w 4" "align_up w 4 \<le> w + 3"
    unfolding e by linarith+
qed

lemma rect_width_bounds:
  assumes ok: "rect_ok rect" and inr: "in_rect rect px py"
  shows "0 < int4_z rect - int4_x rect" "int4_z rect - int4_x rect + 4 < 2147483648"
    "0 < int4_w rect - int4_y rect" "int4_w rect - int4_y rect < 2147483648"
proof -
  let ?w = "int4_z rect - int4_x rect" and ?h = "int4_w rect - int4_y rect"
  show w: "0 < ?w" and h: "0 < ?h" using inr by (simp_all add: in_rect_def)
  have a: "?h * (?w + 4) < 2147483648" using ok by (simp add: rect_ok_def)
  have "1 * (?w + 4) \<le> ?h * (?w + 4)"
    using w h by (intro mult_right_mono) simp_all
  then show "?w + 4 < 2147483648" using a by simp
  have "?h * 1 \<le> ?h * (?w + 4)"
    using w h by (intro mult_left_mono) simp_all
  then show "?h < 2147483648" using a by simp
qed

lemma pixel_idx_exact:
  assumes ok: "rect_ok rect" and inr: "in_rect rect px py"
  shows "pixel_idx rect (align_up (sub32 (int4_z rect) (int4_x rect)) 4) px py
         = (py - int4_y rect) * align_up (int4_z rect - int4_x rect) 4 + (px - int4_x rect)"
    and "0 \<le> (py - int4_y rect) * align_up (int4_z rect - int4_x rect) 4 + (px - int4_x rect)"
proof -
  let ?w = "int4_z rect - int4_x rect" and ?h = "int4_w rect - int4_y rect"
  let ?bw = "align_up ?w 4"
  note wb = rect_width_bounds [OF ok inr]
  have fw: "fits32 ?w" using wb by (simp add: fits32_def)
  have bw: "?w \<le> ?bw" "?bw \<le> ?w + 3"
    using align_up_4 [of ?w] wb by simp_all
  have dy: "0 \<le> py - int4_y rect" "py - int4_y rect \<le> ?h - 1"
    and dx: "0 \<le> px - int4_x rect" "px - int4_x rect \<le> ?w - 1"
    using inr by (simp_all add: in_rect_def)
  have p0: "0 \<le> (py - int4_y rect) * ?bw"
    using dy bw wb by simp
  have "(py - int4_y rect) * ?bw \<le> (?h - 1) * (?w + 3)"
    using dy bw wb by (intro mult_mono) simp_all
  also have "\<dots> = ?h * (?w + 4) - ?h - ?w - 3" by (simp add: algebra_simps)
  finally have p1: "(py - int4_y rect) * ?bw \<le> ?h * (?w + 4) - ?h - ?w - 3" .
  have a: "?h * (?w + 4) < 2147483648" using ok by (simp add: rect_ok_def)
  have fdy: "fits32 (py - int4_y rect)" using dy wb by (simp add: fits32_def)
  have fdx: "fits32 (px - int4_x rect)" using dx wb by (simp add: fits32_def)
  have fp: "fits32 ((py - int4_y rect) * ?bw)"
    using p0 p1 a wb by (simp add: fits32_def)
  have fs: "fits32 ((py - int4_y rect) * ?bw + (px - int4_x rect))"
    using p0 p1 a wb dx by (simp add: fits32_def)
  show "pixel_idx rect (align_up (sub32 (int4_z rect) (int4_x rect)) 4) px py
         = (py - int4_y rect) * ?bw + (px - int4_x rect)"
    by (simp add: pixel_idx_def sub32_def mul32_def add32_def i32_id [OF fw] i32_id [OF fdy]
        i32_id [OF fdx] i32_id [OF fp] i32_id [OF fs])
  show "0 \<le> (py - int4_y rect) * ?bw + (px - int4_x rect)"
    using p0 dx by simp
qed

lemma rect_idx_exact:
  assumes ok: "rect_ok rect" and inr: "in_rect rect x y"
  shows "rect_idx rect x y
         = (y - int4_y rect) * align_up (int4_z rect - int4_x rect) 4 + (x - int4_x rect)"
  using pixel_idx_exact(1) [OF ok inr] by (simp add: rect_idx_def)

lemma rect_idx_spec:
  "rect_ok rect \<Longrightarrow> in_rect rect x y \<Longrightarrow> rect_idx rect x y = rect_index_spec rect x y"
  by (simp add: rect_idx_exact rect_index_spec_def)

lemma ceiling_half: "\<lceil>(of_int s :: rat) / 2\<rceil> = (s + 1) div 2"
proof -
  have "\<lceil>(of_int s :: rat) / of_int 2\<rceil> = - (- s div 2)"
    by (rule ceiling_divide_eq_div)
  then show ?thesis by simp
qed

lemma floor_half: "\<lfloor>(of_int s :: rat) / 2\<rfloor> = s div 2"
  using floor_divide_of_int_eq [of s 2, where ?'a = rat] by simp

lemma fmul_square_assoc: "fmul (fmul (Fin c) d) d = fmul (Fin c) (fmul d d)"
  by (cases d) (simp_all add: mult.assoc)

lemma tiles0_record: "shadow_pixel_record tiles0 0 0 20 = 1000"
  by (simp add: shadow_pixel_record_def tile_of_def tiles0_def Let_def add32_def mul32_def i32_def)

lemma rect0_ok: "rect_ok rect0" "in_rect rect0 0 0" "rect_index_spec rect0 0 0 = 0"
  by (simp_all add: rect_ok_def in_rect_def rect0_def fits32_def rect_index_spec_def)

section \<open>Facts about the floating-point operations\<close>

lemma fadd_commute: "fadd a b = fadd b a"
  by (cases a; cases b) simp_all

lemma fsub_swap: "fsub a b = fneg (fsub b a)"
  by (cases a; cases b) (simp_all add: fsub_def)

lemma fmul_fneg_right: "fmul (Fin c) (fneg d) = fneg (fmul (Fin c) d)"
  by (cases d) simp_all

lemma fmul_fneg_fneg: "fmul (fneg a) (fneg b) = fmul a b"
  by (cases a; cases b) simp_all

lemma square_swap:
  "fmul (fmul (Fin c) (fsub a b)) (fsub a b) = fmul (fmul (Fin c) (fsub b a)) (fsub b a)"
  by (subst (1 2) fsub_swap [of a b]) (simp only: fmul_fneg_right fmul_fneg_fneg)

section \<open>What the shadow divider writes\<close>

lemma divide_shadow_outputs:
  assumes ok: "rect_ok rect" and inr: "in_rect rect x y"
    and s: "0 \<le> sample" "sample \<le> 46340"
    and off: "fits32 (buffer_denoising_offset + 14)"
    and idx: "idx = rect_index_spec rect x y"
    and cb: "cb = shadow_pixel_record tiles x y buffer_pass_stride + (buffer_denoising_offset + 14)"
    and noalias: "distinct [unfilteredA + idx, unfilteredB + idx, sampleVariance + idx,
        sampleVarianceV + idx, bufferVariance + idx]"
      "set [unfilteredA + idx, unfilteredB + idx, sampleVariance + idx, sampleVarianceV + idx,
        bufferVariance + idx] \<inter> set [cb, cb + 1, cb + 2, cb + 3, cb + 4, cb + 5] = {}"
    and ufA: "ufA = fdiv (m (cb + 1)) (fmax (m cb) (Fin (1 / 10000000)))"
    and ufB: "ufB = fdiv (m (cb + 4)) (fmax (m (cb + 3)) (Fin (1 / 10000000)))"
    and oddS: "oddSample = \<lceil>(of_int sample :: rat) / 2\<rceil>"
    and evenS: "evenSample = \<lfloor>(of_int sample :: rat) / 2\<rfloor>"
    and varA: "varA = fdiv (if use_split_variance
                            then fmax (Fin 0) (fsub (m (cb + 2))
                                   (fmul (fmul ufA ufA) (int_to_float oddSample)))
                            else m (cb + 2))
                           (int_to_float (oddSample - 1))"
    and varB: "varB = fdiv (if use_split_variance
                            then fmax (Fin 0) (fsub (m (cb + 5))
                                   (fmul (fmul ufB ufB) (int_to_float evenSample)))
                            else m (cb + 5))
                           (int_to_float (evenSample - 1))"
    and m': "m' = kernel_filter_divide_shadow sample tiles x y unfilteredA unfilteredB
                    sampleVariance sampleVarianceV bufferVariance rect buffer_pass_stride
                    buffer_denoising_offset use_split_variance m"
  shows "shadow_center_buffer tiles x y buffer_pass_stride buffer_denoising_offset = cb
       \<and> m' (unfilteredA + idx) = ufA
       \<and> m' (unfilteredB + idx) = ufB
       \<and> m' (sampleVariance + idx)
           = fdiv (fmul (Fin (1 / 2)) (fadd varA varB)) (int_to_float sample)
       \<and> m' (sampleVarianceV + idx)
           = fdiv (fmul (Fin (1 / 2)) (fmul (fsub varA varB) (fsub varA varB)))
                  (int_to_float (sample * sample))
       \<and> m' (bufferVariance + idx)
           = fmul (Fin (1 / 2)) (fmul (fsub ufA ufB) (fsub ufA ufB))"
proof -
  have c: "shadow_center_buffer tiles x y buffer_pass_stride buffer_denoising_offset = cb"
    by (simp add: shadow_center_buffer_def cb add32_def i32_id [OF off])
  have i: "rect_idx rect x y = idx"
    by (simp add: idx rect_idx_spec [OF ok inr])
  have o: "odd_sample sample = oddSample"
    using s by (simp add: oddS ceiling_half odd_sample_eq)
  have e: "even_sample sample = evenSample"
    using s by (simp add: evenS floor_half even_sample_eq)
  have "fits32 (oddSample - 1)" "fits32 (evenSample - 1)"
    using s unfolding fits32_def oddS evenS ceiling_half floor_half by linarith+
  then have d: "sub32 oddSample 1 = oddSample - 1" "sub32 evenSample 1 = evenSample - 1"
    by (simp_all add: sub32_def i32_id)
  have "0 \<le> sample * sample" by simp
  moreover have "sample * sample \<le> 46340 * 46340"
    using s by (intro mult_mono) simp_all
  ultimately have "fits32 (sample * sample)" unfolding fits32_def by linarith
  then have q: "mul32 sample sample = sample * sample"
    by (simp add: mul32_def i32_id)
  have ne: "unfilteredA + idx \<noteq> unfilteredB + idx" "unfilteredA + idx \<noteq> sampleVariance + idx"
    "unfilteredA + idx \<noteq> sampleVarianceV + idx" "unfilteredA + idx \<noteq> bufferVariance + idx"
    "unfilteredB + idx \<noteq> sampleVariance + idx" "unfilteredB + idx \<noteq> sampleVarianceV + idx"
    "unfilteredB + idx \<noteq> bufferVariance + idx" "sampleVariance + idx \<noteq> sampleVarianceV + idx"
    "sampleVariance + idx \<noteq> bufferVariance + idx"
    "sampleVarianceV + idx \<noteq> bufferVariance + idx"
    "unfilteredA + idx \<noteq> cb + 2" "unfilteredA + idx \<noteq> cb + 3"
    "unfilteredA + idx \<noteq> cb + 4" "unfilteredA + idx \<noteq> cb + 5"
    "unfilteredB + idx \<noteq> cb + 2" "unfilteredB + idx \<noteq> cb + 5"
    using noalias by auto
  show ?thesis
    unfolding m' kernel_filter_divide_shadow_def
    apply (subst Let_def)
    apply (subst Let_def)
    unfolding c i
    by (simp only: Let_def fun_upd_apply ne ne [symmetric] if_False if_True refl o e d q
        add_0_right ufA ufB varA varB fmul_square_assoc simp_thms)
qed

lemma fmax_Fin: "fmax (Fin a) (Fin b) = Fin (max a b)"
  by (simp add: fmax_def max_def)

lemma fge_Fin: "fge (Fin a) (Fin b) \<longleftrightarrow> b \<le> a"
  by (auto simp add: fge_def)

lemma mul32_sample_square_wraps: "mul32 46341 46341 = - 2147479015"
  by (simp add: mul32_def i32_def)

section \<open>What the feature loader writes\<close>



section \<open>Gathering the window\<close>

lemma upto_done: "\<not> p < (h::int) \<Longrightarrow> [p .. h - 1] = []" "\<not> p < (h::int) \<Longrightarrow> nat (h - p) = 0"
  by simp_all

lemma upto_step: "p < (h::int) \<Longrightarrow> [p .. h - 1] = p # [p + 1 .. h - 1]"
  "p < (h::int) \<Longrightarrow> nat (h - p) = Suc (nat (h - (p + 1)))"
  by (simp_all add: upto_rec1)

lemma gather_px_stop:
  "\<not> px < min (add32 (add32 x r) 1) (int4_z rect)
   \<Longrightarrow> gather_px m a b rect bw x r py px values = Some values"
  by (subst gather_px.simps) (simp only: if_False)

lemma gather_px_full:
  "px < min (add32 (add32 x r) 1) (int4_z rect) \<Longrightarrow> \<not> length values < 25
   \<Longrightarrow> gather_px m a b rect bw x r py px values = None"
  by (subst gather_px.simps) (simp only: if_True if_False Let_def)

lemma gather_px_step:
  "px < min (add32 (add32 x r) 1) (int4_z rect) \<Longrightarrow> length values < 25
   \<Longrightarrow> gather_px m a b rect bw x r py px values
       = gather_px m a b rect bw x r py (px + 1)
           (values @ [half_variance m a b (pixel_idx rect bw px py)])"
  by (subst gather_px.simps) (simp only: if_True Let_def half_variance_def)

lemma gather_py_stop:
  "\<not> py < min (add32 (add32 y r) 1) (int4_w rect)
   \<Longrightarrow> gather_py m a b rect bw x y r py values = Some values"
  by (subst gather_py.simps) (simp only: if_False)

lemma gather_py_full:
  "py < min (add32 (add32 y r) 1) (int4_w rect)
   \<Longrightarrow> gather_px m a b rect bw x r py (max (sub32 x r) (int4_x rect)) values = None
   \<Longrightarrow> gather_py m a b rect bw x y r py values = None"
  by (subst gather_py.simps) (simp only: if_True option.case)

lemma gather_py_step:
  "py < min (add32 (add32 y r) 1) (int4_w rect)
   \<Longrightarrow> gather_px m a b rect bw x r py (max (sub32 x r) (int4_x rect)) values = Some values'
   \<Longrightarrow> gather_py m a b rect bw x y r py values
       = gather_py m a b rect bw x y r (py + 1) values'"
  by (subst gather_py.simps) (simp only: if_True option.case)

lemma gather_px_char:
  assumes "length values \<le> 25"
  shows "gather_px m a b rect bw x r py px values =
     (if length values + nat (min (add32 (add32 x r) 1) (int4_z rect) - px) \<le> 25
      then Some (values @ map (\<lambda>px. half_variance m a b (pixel_idx rect bw px py))
                            [px .. min (add32 (add32 x r) 1) (int4_z rect) - 1])
      else None)"
  using assms
proof (induction m a b rect bw x r py px "values" rule: gather_px.induct)
  case (1 m a b rect bw x r py px vs)
  let ?hi = "min (add32 (add32 x r) 1) (int4_z rect)"
  show ?case
  proof (cases "px < ?hi")
    case False
    from False have e: "[px .. ?hi - 1] = []" "nat (?hi - px) = 0" by (rule upto_done)+
    show ?thesis
      unfolding gather_px_stop [OF False] e using 1(2) by simp
  next
    case True
    then have up: "[px .. ?hi - 1] = px # [px + 1 .. ?hi - 1]"
      and n: "nat (?hi - px) = Suc (nat (?hi - (px + 1)))"
      by (rule upto_step)+
    show ?thesis
    proof (cases "length vs < 25")
      case False
      show ?thesis
        unfolding gather_px_full [OF True False] n using False by simp
    next
      case lt: True
      let ?v = "half_variance m a b (pixel_idx rect bw px py)"
      have ih: "gather_px m a b rect bw x r py (px + 1) (vs @ [?v]) =
          (if length (vs @ [?v]) + nat (?hi - (px + 1)) \<le> 25
           then Some ((vs @ [?v]) @ map (\<lambda>px. half_variance m a b (pixel_idx rect bw px py))
                                      [px + 1 .. ?hi - 1])
           else None)"
        using lt by (intro 1(1) [OF True refl lt, folded half_variance_def]) simp
      show ?thesis
        unfolding gather_px_step [OF True lt] ih up n by simp
    qed
  qed
qed

lemma gather_py_char:
  assumes "length values \<le> 25"
  shows "gather_py m a b rect bw x y r py values =
     (if length values + nat (min (add32 (add32 y r) 1) (int4_w rect) - py)
           * nat (min (add32 (add32 x r) 1) (int4_z rect) - max (sub32 x r) (int4_x rect)) \<le> 25
      then Some (values @ concat (map (\<lambda>py. map (\<lambda>px. half_variance m a b (pixel_idx rect bw px py))
                    [max (sub32 x r) (int4_x rect) .. min (add32 (add32 x r) 1) (int4_z rect) - 1])
                    [py .. min (add32 (add32 y r) 1) (int4_w rect) - 1]))
      else None)"
  using assms
proof (induction m a b rect bw x y r py "values" rule: gather_py.induct)
  case (1 m a b rect bw x y r py vs)
  let ?hy = "min (add32 (add32 y r) 1) (int4_w rect)"
  let ?hi = "min (add32 (add32 x r) 1) (int4_z rect)"
  let ?lo = "max (sub32 x r) (int4_x rect)"
  let ?row = "\<lambda>py. map (\<lambda>px. half_variance m a b (pixel_idx rect bw px py)) [?lo .. ?hi - 1]"
  have lrow: "length (?row q) = nat (?hi - ?lo)" for q by simp
  show ?case
  proof (cases "py < ?hy")
    case False
    from False have e: "[py .. ?hy - 1] = []" "nat (?hy - py) = 0" by (rule upto_done)+
    show ?thesis
      unfolding gather_py_stop [OF False] e using 1(2) by simp
  next
    case True
    then have up: "[py .. ?hy - 1] = py # [py + 1 .. ?hy - 1]"
      and n: "nat (?hy - py) = Suc (nat (?hy - (py + 1)))"
      by (rule upto_step)+
    note px = gather_px_char [OF 1(2), of m a b rect bw x r py ?lo]
    show ?thesis
    proof (cases "length vs + nat (?hi - ?lo) \<le> 25")
      case False
      then have g: "gather_px m a b rect bw x r py ?lo vs = None"
        unfolding px by (simp only: if_False)
      have "\<not> length vs + nat (?hy - py) * nat (?hi - ?lo) \<le> 25"
        using False unfolding n by simp
      then show ?thesis
        unfolding gather_py_full [OF True g] by (simp only: if_False)
    next
      case le: True
      then have g: "gather_px m a b rect bw x r py ?lo vs = Some (vs @ ?row py)"
        unfolding px by (simp only: if_True)
      have len: "length (vs @ ?row py) \<le> 25"
        using le unfolding length_append lrow .
      have ih: "gather_py m a b rect bw x y r (py + 1) (vs @ ?row py) =
          (if length (vs @ ?row py) + nat (?hy - (py + 1)) * nat (?hi - ?lo) \<le> 25
           then Some ((vs @ ?row py) @ concat (map ?row [py + 1 .. ?hy - 1]))
           else None)"
        by (rule 1(1) [OF True g len])
      show ?thesis
        unfolding gather_py_step [OF True g] ih up n length_append lrow
        by (simp add: add.assoc)
    qed
  qed
qed

lemma length_concat_rows:
  "length (concat (map (\<lambda>q. map (g q) cols) rows)) = length rows * length cols"
  by (induction rows) simp_all

lemma length_window_pixels:
  "length (window_pixels rect x y r)
   = length (window_rows rect y r) * length (window_cols rect x r)"
  by (simp add: window_pixels_def length_concat_rows)

lemma window_exact:
  assumes r: "0 \<le> r" and inr: "in_rect rect x y" and ok: "rect_ok rect"
    and w: "window_ok x y r"
  shows "sub32 x r = x - r" "add32 (add32 x r) 1 = x + r + 1"
    "sub32 y r = y - r" "add32 (add32 y r) 1 = y + r + 1"
proof -
  have xy: "fits32 x" "fits32 y"
    using inr ok unfolding in_rect_def rect_ok_def fits32_def by linarith+
  have "fits32 (x + r)" "fits32 (y + r)"
    using xy w r unfolding window_ok_def fits32_def by linarith+
  then show "sub32 x r = x - r" "add32 (add32 x r) 1 = x + r + 1"
    "sub32 y r = y - r" "add32 (add32 y r) 1 = y + r + 1"
    using w by (simp_all add: sub32_def add32_def i32_id window_ok_def)
qed

lemma window_cols_bounds:
  assumes r: "0 \<le> r" and x: "int4_x rect \<le> x" "x < int4_z rect"
  shows "x \<in> set (window_cols rect x r)"
    "1 \<le> int (length (window_cols rect x r))"
    "int (length (window_cols rect x r)) \<le> 2 * r + 1"
    "\<forall>px\<in>set (window_cols rect x r). int4_x rect \<le> px \<and> px < int4_z rect"
  using assms by (auto simp add: window_cols_def)

lemma window_rows_bounds:
  assumes r: "0 \<le> r" and y: "int4_y rect \<le> y" "y < int4_w rect"
  shows "y \<in> set (window_rows rect y r)"
    "1 \<le> int (length (window_rows rect y r))"
    "int (length (window_rows rect y r)) \<le> 2 * r + 1"
    "\<forall>py\<in>set (window_rows rect y r). int4_y rect \<le> py \<and> py < int4_w rect"
  using assms by (auto simp add: window_rows_def)

lemma window_pixels_in_rect:
  assumes "0 \<le> r" and "in_rect rect x y" and "(px, py) \<in> set (window_pixels rect x y r)"
  shows "in_rect rect px py"
proof -
  have "px \<in> set (window_cols rect x r)" "py \<in> set (window_rows rect y r)"
    using assms(3) by (auto simp add: window_pixels_def)
  then show ?thesis
    using window_cols_bounds(4) [of r rect x] window_rows_bounds(4) [of r rect y] assms(1,2)
    by (auto simp add: in_rect_def)
qed

lemma window_count_bounds:
  assumes r: "0 \<le> r" and inr: "in_rect rect x y"
  shows "(x, y) \<in> set (window_pixels rect x y r)"
    "1 \<le> int (length (window_pixels rect x y r))"
    "int (length (window_pixels rect x y r)) \<le> (2 * r + 1) * (2 * r + 1)"
proof -
  have x: "int4_x rect \<le> x" "x < int4_z rect" and y: "int4_y rect \<le> y" "y < int4_w rect"
    using inr by (simp_all add: in_rect_def)
  note c = window_cols_bounds [OF r x] and w = window_rows_bounds [OF r y]
  show "(x, y) \<in> set (window_pixels rect x y r)"
    using c(1) w(1) by (auto simp add: window_pixels_def)
  let ?c = "int (length (window_cols rect x r))" and ?w = "int (length (window_rows rect y r))"
  have n: "int (length (window_pixels rect x y r)) = ?w * ?c"
    by (simp add: length_window_pixels)
  have "1 * 1 \<le> ?w * ?c"
    using c(2) w(2) by (intro mult_mono) simp_all
  then show "1 \<le> int (length (window_pixels rect x y r))"
    unfolding n by simp
  have "?w * ?c \<le> (2 * r + 1) * (2 * r + 1)"
    using c(3) w(3) r by (intro mult_mono) simp_all
  then show "int (length (window_pixels rect x y r)) \<le> (2 * r + 1) * (2 * r + 1)"
    unfolding n .
qed

lemma gather_window:
  assumes r: "0 \<le> r" and inr: "in_rect rect x y" and ok: "rect_ok rect"
    and w: "window_ok x y r"
  shows "gather_py m a b rect (align_up (sub32 (int4_z rect) (int4_x rect)) 4) x y r
           (max (sub32 y r) (int4_y rect)) []
         = (if length (window_pixels rect x y r) \<le> 25
            then Some (window_values m a b rect x y r) else None)"
proof -
  let ?bw = "align_up (sub32 (int4_z rect) (int4_x rect)) 4"
  note e = window_exact [OF r inr ok w]
  have cols: "[max (x - r) (int4_x rect) .. min (x + r + 1) (int4_z rect) - 1]
              = window_cols rect x r"
    unfolding window_cols_def by (rule arg_cong [where f = "upto _"]) linarith
  have rows: "[max (y - r) (int4_y rect) .. min (y + r + 1) (int4_w rect) - 1]
              = window_rows rect y r"
    unfolding window_rows_def by (rule arg_cong [where f = "upto _"]) linarith
  have lc: "nat (min (x + r + 1) (int4_z rect) - max (x - r) (int4_x rect))
            = length (window_cols rect x r)"
    unfolding cols [symmetric] by simp
  have lr: "nat (min (y + r + 1) (int4_w rect) - max (y - r) (int4_y rect))
            = length (window_rows rect y r)"
    unfolding rows [symmetric] by simp
  have vals: "concat (map (\<lambda>py. map (\<lambda>px. half_variance m a b (pixel_idx rect ?bw px py))
                  (window_cols rect x r)) (window_rows rect y r))
              = window_values m a b rect x y r"
  proof -
    have "half_variance m a b (pixel_idx rect ?bw px py)
          = half_variance m a b (rect_index_spec rect px py)"
      if "(px, py) \<in> set (window_pixels rect x y r)" for px py
      using pixel_idx_exact(1) [OF ok window_pixels_in_rect [OF r inr that]]
      by (simp add: rect_index_spec_def)
    then have "map (\<lambda>(px, py). half_variance m a b (pixel_idx rect ?bw px py))
                 (window_pixels rect x y r) = window_values m a b rect x y r"
      unfolding window_values_def by (intro map_cong) auto
    then show ?thesis
      by (simp add: window_pixels_def map_concat comp_def)
  qed
  show ?thesis
    using gather_py_char [of "[]" m a b rect ?bw x y r "max (sub32 y r) (int4_y rect)"]
    by (simp add: e cols rows lc lr vals length_window_pixels)
qed

section \<open>The rank index and the windowed result\<close>

lemma rank_index_eq:
  assumes "0 \<le> n" "n \<le> 25"
  shows "rank_index n = 7 * n div 8"
proof -
  have a: "fits32 (7 * n)" using assms by (simp add: fits32_def)
  have b: "(7 * n) sdiv 8 = 7 * n div 8"
    using assms by (simp add: signed_divide_int_def sgn_if)
  have c: "fits32 (7 * n div 8)" using assms unfolding fits32_def by linarith
  show ?thesis
    by (simp add: rank_index_def div32_def mul32_def i32_id [OF a] b i32_id [OF c])
qed

lemma rank_below: "1 \<le> n \<Longrightarrow> 0 \<le> 7 * n div 8 \<and> 7 * n div 8 < (n::int)"
  by linarith

lemma length_window_values:
  "length (window_values m a b rect x y r) = length (window_pixels rect x y r)"
  by (simp add: window_values_def)

lemma combine_halves_windowed:
  assumes r: "1 \<le> r" and inr: "in_rect rect x y" and ok: "rect_ok rect"
    and w: "window_ok x y r"
    and n: "n = int (length (window_pixels rect x y r))" "n \<le> 25"
    and v: "variance \<noteq> 0"
    and idx: "idx = rect_index_spec rect x y"
    and m1: "m1 = (if mean \<noteq> 0
                   then m(mean + idx := fmul (Fin (1 / 2)) (fadd (m (a + idx)) (m (b + idx))))
                   else m)"
    and m2: "m2 = m1(variance + idx := Fin 0)"
  shows "kernel_filter_combine_halves x y mean variance a b rect r m
         = Some (m2(variance + idx :=
                   insertion_sort (window_values m2 a b rect x y r) n 1 ! nat (7 * n div 8)))"
proof -
  have r0: "0 \<le> r" "r \<noteq> 0" using r by simp_all
  have i: "pixel_idx rect (align_up (sub32 (int4_z rect) (int4_x rect)) 4) x y = idx"
    using pixel_idx_exact(1) [OF ok inr] by (simp add: idx rect_index_spec_def)
  have n1: "1 \<le> n" using window_count_bounds(2) [OF r0(1) inr] n by simp
  have le: "length (window_pixels rect x y r) \<le> 25" using n by simp
  have k: "rank_index n = 7 * n div 8" using n1 n(2) by (intro rank_index_eq) simp_all
  note rb = rank_below [OF n1]
  have g: "gather_py m2 a b rect (align_up (sub32 (int4_z rect) (int4_x rect)) 4) x y r
             (max (sub32 y r) (int4_y rect)) [] = Some (window_values m2 a b rect x y r)"
    using le by (simp add: gather_window [OF r0(1) inr ok w])
  show ?thesis
    unfolding kernel_filter_combine_halves_def
    apply (subst Let_def)
    apply (subst Let_def)
    unfolding i
    apply (subst Let_def)
    unfolding m1 [symmetric]
    apply (subst Let_def)
    unfolding m2 [symmetric] g
    using v r0(2) rb
    by (simp add: Let_def length_window_values n(1) [symmetric] k)
qed

section \<open>The insertion sort\<close>









lemma insertion_sort_stop:
  "n = int (length vs) \<Longrightarrow> length vs \<le> k \<Longrightarrow> insertion_sort vs n (int k) = vs"
  by (subst insertion_sort.simps) simp



section \<open>Further facts about the half combiner\<close>

lemma combine_halves_null_variance:
  "kernel_filter_combine_halves x y mean 0 a b rect r m
   = kernel_filter_combine_halves x y mean 0 a b rect 0 m"
  by (simp add: kernel_filter_combine_halves_def Let_def)

lemma singleton_list: "length xs = 1 \<Longrightarrow> e \<in> set xs \<Longrightarrow> xs = [e]"
  by (cases xs) auto

lemma rect0_window: "in_rect rect0 1 1" "window_ok 1 1 1"
  "window_pixels rect0 1 1 1 = [(0, 0), (1, 0), (2, 0), (0, 1), (1, 1), (2, 1), (0, 2), (1, 2), (2, 2)]"
  by (simp_all add: in_rect_def window_ok_def fits32_def rect0_def window_pixels_def
      window_cols_def window_rows_def upto_rec1)

lemma rect1_window: "rect_ok rect1" "in_rect rect1 0 0" "window_ok 0 0 1"
  "length (window_pixels rect1 0 0 1) = 1" "rect_index_spec rect1 0 0 = 0"
  by (simp_all add: rect_ok_def in_rect_def window_ok_def fits32_def rect1_def window_pixels_def
      window_cols_def window_rows_def rect_index_spec_def)







section \<open>Facts about the reader of custom data layers\<close>

lemma read_sample_call_dispatch:
  assumes "0 \<le> C" "C \<le> type" "type < CD_NUMTYPES"
  shows "read_sample_call C store type name num_data = read_sample type store name num_data"
  using assms
proof (induction C store type name num_data rule: read_sample_call.induct)
  case (1 C store type name num_data)
  show ?case
  proof (cases "type = C")
    case True
    with 1(4) show ?thesis by (subst read_sample_call.simps) simp
  next
    case False
    have "read_sample_call C store type name num_data
          = read_sample_call (C + 1) store type name num_data"
      using False 1(3,4) by (subst read_sample_call.simps) simp
    also have "\<dots> = read_sample type store name num_data"
      using False 1(2,3,4) by (intro 1(1)) simp_all
    finally show ?thesis .
  qed
qed

lemma read_sample_call_mismatch:
  assumes "int (sample_size store name) \<noteq> num_data"
  shows "read_sample_call 0 store CD_MCOL name num_data = PTC_READ_SAMPLE_INVALID"
    and "read_sample_call 0 store CD_ORIGINDEX name num_data = PTC_READ_SAMPLE_INVALID"
  using assms
  by (simp_all add: read_sample_call_dispatch read_sample_def read_sample_MCOL_def
      read_sample_ORIGINDEX_def CD_MCOL_def CD_ORIGINDEX_def CD_NUMTYPES_def CD_MDEFORMVERT_def)

lemma read_sample_call_mismatch_MDEFORMVERT:
  assumes "int (sample_size store (name @ '':totweight'')) \<noteq> num_data
         \<or> int (sample_size store (name @ '':flag'')) \<noteq> num_data"
  shows "read_sample_call 0 store CD_MDEFORMVERT name num_data = PTC_READ_SAMPLE_INVALID"
  using assms
  by (simp add: read_sample_call_dispatch read_sample_def read_sample_MDEFORMVERT_def
      CD_NUMTYPES_def CD_MDEFORMVERT_def)

lemma read_sample_call_mismatch_ORIGSPACE:
  assumes "int (sample_size store (name @ '':uv0'')) \<noteq> num_data
         \<or> int (sample_size store (name @ '':uv1'')) \<noteq> num_data
         \<or> int (sample_size store (name @ '':uv2'')) \<noteq> num_data
         \<or> int (sample_size store (name @ '':uv3'')) \<noteq> num_data"
  shows "read_sample_call 0 store CD_ORIGSPACE name num_data = PTC_READ_SAMPLE_INVALID"
  using assms
  by (simp add: read_sample_call_dispatch read_sample_def read_sample_ORIGSPACE_def
      CD_NUMTYPES_def CD_MDEFORMVERT_def CD_MCOL_def CD_ORIGINDEX_def CD_ORIGSPACE_def)

lemma CustomDataReader_read_sample_exact:
  "fst (CustomDataReader_read_sample layertype_name shift_mask reader store cdata num_data)
   = PTC_READ_SAMPLE_EXACT"
  by (simp add: CustomDataReader_read_sample_def Let_def)

lemma read_types_store0:
  "read_types layertype_name0 shift_mask0 reader0 store0 4 0 [] = [(6, '''')]"
  by (simp add: read_types.simps CD_NUMTYPES_def reader0_def store0_def layertype_name0_def
      shift_mask0_def cdtype_from_name_def Let_def)

section \<open>The divisors of the shadow pass\<close>

text \<open>
  Claim C2, as amended. With a sample count of at least 4 (below the largest \<open>int\<close>, so
  that \<open>sample + 1\<close> does not wrap) neither sub-sample count is 1: the divisors
  \<open>odd_sample - 1\<close> and \<open>even_sample - 1\<close> are positive, and dividing a finite value by
  them gives a finite value, no infinity and no NaN.
\<close>

theorem divide_shadow_divisors_nonzero:
  assumes "4 \<le> sample" and "sample < 2147483647"
  shows "odd_sample sample \<noteq> 1 \<and> even_sample sample \<noteq> 1
       \<and> 0 < sub32 (odd_sample sample) 1 \<and> 0 < sub32 (even_sample sample) 1
       \<and> is_fin (fdiv (Fin q) (int_to_float (sub32 (odd_sample sample) 1)))
       \<and> is_fin (fdiv (Fin q) (int_to_float (sub32 (even_sample sample) 1)))"
proof -
  have o: "odd_sample sample = (sample + 1) div 2"
    using assms by (intro odd_sample_eq) simp_all
  have e: "even_sample sample = sample div 2"
    using assms by (intro even_sample_eq) simp_all
  have fo: "fits32 ((sample + 1) div 2 - 1)" and fe: "fits32 (sample div 2 - 1)"
    using assms unfolding fits32_def by linarith+
  have po: "0 < (sample + 1) div 2 - 1" and pe: "0 < sample div 2 - 1"
    using assms by linarith+
  show ?thesis
    using po pe
    by (simp add: o e sub32_def i32_id [OF fo] i32_id [OF fe] int_to_float_def)
qed

theorem divide_shadow_divisors_nonzero_witness:
  "odd_sample 4 \<noteq> 1 \<and> even_sample 4 \<noteq> 1
   \<and> 0 < sub32 (odd_sample 4) 1 \<and> 0 < sub32 (even_sample 4) 1
   \<and> is_fin (fdiv (Fin 3) (int_to_float (sub32 (odd_sample 4) 1)))
   \<and> is_fin (fdiv (Fin 3) (int_to_float (sub32 (even_sample 4) 1)))"
  using divide_shadow_divisors_nonzero [of 4 3] by simp

text \<open>
  Claim C2 as stated fails: a sample count of 2 satisfies the caller contract
  \<open>sample \<ge> 2\<close>, both sub-sample counts are 1 and both divisors are 0.
\<close>

theorem divide_shadow_divisors_counterexample:
  "(2::int) \<le> 2 \<and> odd_sample 2 = 1 \<and> even_sample 2 = 1
   \<and> sub32 (odd_sample 2) 1 = 0 \<and> sub32 (even_sample 2) 1 = 0
   \<and> fdiv (Fin 1) (int_to_float (sub32 (odd_sample 2) 1)) = PInf"
  by (simp add: odd_sample_def even_sample_def div32_def add32_def sub32_def i32_def
      int_to_float_def signed_divide_int_def)

section \<open>The shadow divider\<close>



text \<open>
  Claim C9. One call of the shadow divider changes no cell of the store other than the
  cell at index \<open>idx = (y-rect.y)*align_up(rect.z-rect.x,4)+(x-rect.x)\<close> of each of the
  five output arrays: every other element of the output arrays and every cell of the
  tile buffers keeps its value.
\<close>

theorem divide_shadow_frame:
  assumes "rect_ok rect" and "in_rect rect x y"
    and "idx = rect_index_spec rect x y"
    and "c \<noteq> unfilteredA + idx" and "c \<noteq> unfilteredB + idx"
    and "c \<noteq> sampleVariance + idx" and "c \<noteq> sampleVarianceV + idx"
    and "c \<noteq> bufferVariance + idx"
  shows "kernel_filter_divide_shadow sample tiles x y unfilteredA unfilteredB sampleVariance
           sampleVarianceV bufferVariance rect buffer_pass_stride buffer_denoising_offset
           use_split_variance m c = m c"
  using assms
  by (simp add: kernel_filter_divide_shadow_def Let_def rect_idx_spec)

theorem divide_shadow_frame_witness:
  "kernel_filter_divide_shadow 4 tiles0 0 0 2000 3000 4000 5000 6000 rect0 20 0 True mem0 1014
   = Fin 2"
proof -
  have h: "(0::int) = rect_index_spec rect0 0 0" "(1014::int) \<noteq> 2000 + 0"
    "(1014::int) \<noteq> 3000 + 0" "(1014::int) \<noteq> 4000 + 0" "(1014::int) \<noteq> 5000 + 0"
    "(1014::int) \<noteq> 6000 + 0"
    by (simp_all add: rect0_ok)
  show ?thesis
    using divide_shadow_frame [OF rect0_ok(1) rect0_ok(2) h, of 4 tiles0 20 0 True mem0]
    by (simp add: mem0_def)
qed

text \<open>
  Claim C4, as amended. With the split-variance flag on, a record of six finite entries
  and a sample count from 4 to 46340, the written \<open>sampleVariance\<close> and
  \<open>sampleVarianceV\<close> are both \<open>>= 0\<close> (whatever the sign of the second moments), the
  output cells being distinct and none of them a cell of the record.
\<close>

theorem divide_shadow_split_nonneg:
  assumes ok: "rect_ok rect" and inr: "in_rect rect x y"
    and s: "4 \<le> sample" "sample \<le> 46340"
    and off: "fits32 (buffer_denoising_offset + 14)"
    and idx: "idx = rect_index_spec rect x y"
    and cb: "cb = shadow_pixel_record tiles x y buffer_pass_stride + (buffer_denoising_offset + 14)"
    and noalias: "distinct [unfilteredA + idx, unfilteredB + idx, sampleVariance + idx,
        sampleVarianceV + idx, bufferVariance + idx]"
      "set [unfilteredA + idx, unfilteredB + idx, sampleVariance + idx, sampleVarianceV + idx,
        bufferVariance + idx] \<inter> set [cb, cb + 1, cb + 2, cb + 3, cb + 4, cb + 5] = {}"
    and fin: "\<forall>c\<in>{cb, cb + 1, cb + 2, cb + 3, cb + 4, cb + 5}. is_fin (m c)"
    and m': "m' = kernel_filter_divide_shadow sample tiles x y unfilteredA unfilteredB
                    sampleVariance sampleVarianceV bufferVariance rect buffer_pass_stride
                    buffer_denoising_offset True m"
  shows "fge (m' (sampleVariance + idx)) (Fin 0) \<and> fge (m' (sampleVarianceV + idx)) (Fin 0)"
proof -
  have "is_fin (m cb)" "is_fin (m (cb + 1))" "is_fin (m (cb + 2))"
    "is_fin (m (cb + 3))" "is_fin (m (cb + 4))" "is_fin (m (cb + 5))"
    using fin by simp_all
  then obtain r0 r1 r2 r3 r4 r5 where r: "m cb = Fin r0" "m (cb + 1) = Fin r1"
    "m (cb + 2) = Fin r2" "m (cb + 3) = Fin r3" "m (cb + 4) = Fin r4" "m (cb + 5) = Fin r5"
    by (auto elim!: is_fin.elims)
  define o1 where "o1 = \<lceil>(of_int sample :: rat) / 2\<rceil> - 1"
  define e1 where "e1 = \<lfloor>(of_int sample :: rat) / 2\<rfloor> - 1"
  have pos: "0 < o1" "0 < e1"
    using s unfolding o1_def e1_def ceiling_half floor_half by linarith+
  define uA where "uA = r1 / max r0 (1 / 10000000)"
  define uB where "uB = r4 / max r3 (1 / 10000000)"
  define a where "a = max 0 (r2 - uA * uA * of_int (o1 + 1)) / of_int o1"
  define b where "b = max 0 (r5 - uB * uB * of_int (e1 + 1)) / of_int e1"
  have nn: "0 \<le> a" "0 \<le> b"
    using pos by (simp_all add: a_def b_def)
  have ufA: "Fin uA = fdiv (m (cb + 1)) (fmax (m cb) (Fin (1 / 10000000)))"
    by (simp add: r fmax_Fin uA_def max_def)
  have ufB: "Fin uB = fdiv (m (cb + 4)) (fmax (m (cb + 3)) (Fin (1 / 10000000)))"
    by (simp add: r fmax_Fin uB_def max_def)
  have varA: "Fin a = fdiv (if True
                            then fmax (Fin 0) (fsub (m (cb + 2))
                                   (fmul (fmul (Fin uA) (Fin uA)) (int_to_float (o1 + 1))))
                            else m (cb + 2))
                           (int_to_float (o1 + 1 - 1))"
    using pos by (simp add: r fmax_Fin fsub_def int_to_float_def a_def)
  have varB: "Fin b = fdiv (if True
                            then fmax (Fin 0) (fsub (m (cb + 5))
                                   (fmul (fmul (Fin uB) (Fin uB)) (int_to_float (e1 + 1))))
                            else m (cb + 5))
                           (int_to_float (e1 + 1 - 1))"
    using pos by (simp add: r fmax_Fin fsub_def int_to_float_def b_def)
  have s0: "0 \<le> sample" using s by simp
  have oe: "o1 + 1 = \<lceil>(of_int sample :: rat) / 2\<rceil>" "e1 + 1 = \<lfloor>(of_int sample :: rat) / 2\<rfloor>"
    by (simp_all add: o1_def e1_def)
  note out = divide_shadow_outputs [OF ok inr s0 s(2) off idx cb noalias ufA ufB oe varA varB m']
  have sp: "(0::rat) < of_int sample" "(0::rat) < of_int (sample * sample)"
    using s by simp_all
  have v: "m' (sampleVariance + idx) = Fin (1 / 2 * (a + b) / of_int sample)"
    using out sp by (simp add: int_to_float_def)
  have vv: "m' (sampleVarianceV + idx)
            = Fin (1 / 2 * ((a - b) * (a - b)) / of_int (sample * sample))"
    using out sp by (simp add: int_to_float_def fsub_def)
  have "(0::rat) \<le> 1 / 2 * (a + b) / of_int sample"
    using nn sp by (intro divide_nonneg_pos mult_nonneg_nonneg) simp_all
  moreover have "(0::rat) \<le> 1 / 2 * ((a - b) * (a - b))"
    by simp
  then have "(0::rat) \<le> 1 / 2 * ((a - b) * (a - b)) / of_int (sample * sample)"
    using sp(2) by (rule divide_nonneg_pos)
  ultimately show ?thesis
    by (simp only: v vv fge_Fin simp_thms)
qed

theorem divide_shadow_split_nonneg_witness:
  "fge (kernel_filter_divide_shadow 4 tiles0 0 0 2000 3000 4000 5000 6000 rect0 20 0 True mem0
          4000) (Fin 0)
   \<and> fge (kernel_filter_divide_shadow 4 tiles0 0 0 2000 3000 4000 5000 6000 rect0 20 0 True mem0
          5000) (Fin 0)"
proof -
  have h1: "(4::int) \<le> 4" "(4::int) \<le> 46340" "fits32 (0 + 14)"
    by (simp_all add: fits32_def)
  have h2: "(0::int) = rect_index_spec rect0 0 0"
    "(1014::int) = shadow_pixel_record tiles0 0 0 20 + (0 + 14)"
    by (simp_all add: rect0_ok tiles0_record)
  have h3: "distinct [2000 + 0, 3000 + 0, 4000 + 0, 5000 + 0, 6000 + (0::int)]"
    "set [2000 + 0, 3000 + 0, 4000 + 0, 5000 + 0, 6000 + (0::int)]
       \<inter> set [1014, 1014 + 1, 1014 + 2, 1014 + 3, 1014 + 4, 1014 + 5] = {}"
    by simp_all
  have h4: "\<forall>c\<in>{1014, 1014 + 1, 1014 + 2, 1014 + 3, 1014 + 4, 1014 + 5}. is_fin (mem0 c)"
    by (simp add: mem0_def)
  have h5: "kernel_filter_divide_shadow 4 tiles0 0 0 2000 3000 4000 5000 6000 rect0 20 0 True mem0
            = kernel_filter_divide_shadow 4 tiles0 0 0 2000 3000 4000 5000 6000 rect0 20 0 True mem0"
    by (rule refl)
  show ?thesis
    using divide_shadow_split_nonneg [OF rect0_ok(1) rect0_ok(2) h1 h2 h3 h4 h5]
    by simp
qed

text \<open>
  Claim C4 as stated fails. The sample count 2 and the all-zero record (second moments 0,
  hence non-negative) give \<open>oddSample = evenSample = 1\<close>: both variances are \<open>0/0\<close>, and
  the written \<open>sampleVariance\<close> and \<open>sampleVarianceV\<close> are NaN, which is not \<open>>= 0\<close>.
\<close>

theorem divide_shadow_split_counterexample:
  "fge (mem_zero 1016) (Fin 0) \<and> fge (mem_zero 1019) (Fin 0)
   \<and> kernel_filter_divide_shadow 2 tiles0 0 0 2000 3000 4000 5000 6000 rect0 20 0 True mem_zero
        4000 = NaN
   \<and> kernel_filter_divide_shadow 2 tiles0 0 0 2000 3000 4000 5000 6000 rect0 20 0 True mem_zero
        5000 = NaN
   \<and> \<not> fge (kernel_filter_divide_shadow 2 tiles0 0 0 2000 3000 4000 5000 6000 rect0 20 0 True
              mem_zero 4000) (Fin 0)
   \<and> \<not> fge (kernel_filter_divide_shadow 2 tiles0 0 0 2000 3000 4000 5000 6000 rect0 20 0 True
              mem_zero 5000) (Fin 0)"
proof -
  have h1: "(0::int) \<le> 2" "(2::int) \<le> 46340" "fits32 (0 + 14)"
    by (simp_all add: fits32_def)
  have h2: "(0::int) = rect_index_spec rect0 0 0"
    "(1014::int) = shadow_pixel_record tiles0 0 0 20 + (0 + 14)"
    by (simp_all add: rect0_ok tiles0_record)
  have h3: "distinct [2000 + 0, 3000 + 0, 4000 + 0, 5000 + 0, 6000 + (0::int)]"
    "set [2000 + 0, 3000 + 0, 4000 + 0, 5000 + 0, 6000 + (0::int)]
       \<inter> set [1014, 1014 + 1, 1014 + 2, 1014 + 3, 1014 + 4, 1014 + 5] = {}"
    by simp_all
  have h4: "Fin 0 = fdiv (mem_zero (1014 + 1)) (fmax (mem_zero 1014) (Fin (1 / 10000000)))"
    "Fin 0 = fdiv (mem_zero (1014 + 4)) (fmax (mem_zero (1014 + 3)) (Fin (1 / 10000000)))"
    by (simp_all add: mem_zero_def fmax_def)
  have h5: "(1::int) = \<lceil>(of_int 2 :: rat) / 2\<rceil>" "(1::int) = \<lfloor>(of_int 2 :: rat) / 2\<rfloor>"
    by simp_all
  have h6: "NaN = fdiv (if True then fmax (Fin 0) (fsub (mem_zero (1014 + 2))
                 (fmul (fmul (Fin 0) (Fin 0)) (int_to_float 1))) else mem_zero (1014 + 2))
               (int_to_float (1 - 1))"
    "NaN = fdiv (if True then fmax (Fin 0) (fsub (mem_zero (1014 + 5))
                 (fmul (fmul (Fin 0) (Fin 0)) (int_to_float 1))) else mem_zero (1014 + 5))
               (int_to_float (1 - 1))"
    by (simp_all add: mem_zero_def fmax_def fsub_def int_to_float_def)
  have h7: "kernel_filter_divide_shadow 2 tiles0 0 0 2000 3000 4000 5000 6000 rect0 20 0 True
              mem_zero
            = kernel_filter_divide_shadow 2 tiles0 0 0 2000 3000 4000 5000 6000 rect0 20 0 True
                mem_zero"
    by (rule refl)
  show ?thesis
    using divide_shadow_outputs [OF rect0_ok(1) rect0_ok(2) h1 h2 h3 h4 h5 h6 h7]
    by (simp add: mem_zero_def fge_def fsub_def int_to_float_def)
qed

section \<open>The feature loader\<close>



section \<open>The half combiner\<close>

text \<open>
  Claim C8. With \<open>r = 0\<close> the half combiner is symmetric under the exchange of the two
  half buffers: the store after the call, hence the written mean \<open>0.5*(a[idx]+b[idx])\<close>
  and the written variance \<open>0.25*(a[idx]-b[idx])^2\<close>, is the same for \<open>(a, b)\<close> and
  \<open>(b, a)\<close>, whether or not an output is requested and whatever cells the buffers share.
\<close>

theorem combine_halves_swap_symmetric:
  "kernel_filter_combine_halves x y mean variance b a rect 0 m
   = kernel_filter_combine_halves x y mean variance a b rect 0 m"
  unfolding kernel_filter_combine_halves_def Let_def
  by (simp add: fadd_commute square_swap)

text \<open>
  Claim C10. In the windowed mode (\<open>r >= 1\<close>) with the pixel inside the rectangle, the
  clipped window holds the centre pixel and at most \<open>(2r+1)^2\<close> pixels, so
  \<open>1 <= numValues <= (2r+1)^2\<close>, and the rank index \<open>(7*numValues)/8\<close> is below
  \<open>numValues\<close>. The gathering loop returns the window values exactly when there are at
  most 25 of them; hence for \<open>r <= 2\<close> no access to the 25-cell array \<open>values\<close> is out
  of bounds: the gathering and the selection both succeed and the kernel has a result.
\<close>

theorem combine_halves_window_bounds:
  assumes r: "1 \<le> r" and inr: "in_rect rect x y" and ok: "rect_ok rect"
    and w: "window_ok x y r"
    and n: "n = int (length (window_pixels rect x y r))"
  shows "(x, y) \<in> set (window_pixels rect x y r)
       \<and> 1 \<le> n \<and> n \<le> (2 * r + 1) * (2 * r + 1) \<and> 7 * n div 8 < n
       \<and> gather_py m a b rect (align_up (sub32 (int4_z rect) (int4_x rect)) 4) x y r
            (max (sub32 y r) (int4_y rect)) []
          = (if n \<le> 25 then Some (window_values m a b rect x y r) else None)
       \<and> (r \<le> 2 \<longrightarrow> n \<le> 25 \<and> 0 \<le> rank_index n \<and> rank_index n < n
            \<and> kernel_filter_combine_halves x y mean variance a b rect r m \<noteq> None)"
proof -
  have r0: "0 \<le> r" using r by simp
  note c = window_count_bounds [OF r0 inr, folded n]
  have g: "gather_py m a b rect (align_up (sub32 (int4_z rect) (int4_x rect)) 4) x y r
            (max (sub32 y r) (int4_y rect)) []
          = (if n \<le> 25 then Some (window_values m a b rect x y r) else None)"
    unfolding n by (simp add: gather_window [OF r0 inr ok w])
  have small: "n \<le> 25 \<and> 0 \<le> rank_index n \<and> rank_index n < n
            \<and> kernel_filter_combine_halves x y mean variance a b rect r m \<noteq> None"
    if r2: "r \<le> 2"
  proof -
    have "(2 * r + 1) * (2 * r + 1) \<le> 5 * 5"
      using r r2 by (intro mult_mono) simp_all
    then have n25: "n \<le> 25" using c(3) by simp
    have k: "rank_index n = 7 * n div 8"
      using c(2) n25 by (intro rank_index_eq) simp_all
    have "kernel_filter_combine_halves x y mean variance a b rect r m \<noteq> None"
    proof (cases "variance = 0")
      case True
      then show ?thesis
        by (simp add: kernel_filter_combine_halves_def Let_def)
    next
      case False
      show ?thesis
        unfolding combine_halves_windowed [OF r inr ok w n n25 False refl refl refl]
        by simp
    qed
    then show ?thesis
      using n25 k rank_below [OF c(2)] by simp
  qed
  show ?thesis
    using c g small rank_below [OF c(2)] by blast
qed

theorem combine_halves_window_bounds_witness:
  "(1, 1) \<in> set (window_pixels rect0 1 1 1)
   \<and> (1::int) \<le> 9 \<and> (9::int) \<le> (2 * 1 + 1) * (2 * 1 + 1) \<and> rank_index 9 < 9
   \<and> kernel_filter_combine_halves 1 1 0 7000 1014 1017 rect0 1 mem0 \<noteq> None"
proof -
  have h: "(1::int) \<le> 1" "(9::int) = int (length (window_pixels rect0 1 1 1))"
    by (simp_all add: rect0_window)
  show ?thesis
    using combine_halves_window_bounds [OF h(1) rect0_window(1) rect0_ok(1) rect0_window(2) h(2),
        of mem0 1014 1017 0 7000]
    by simp
qed

text \<open>
  Claim C7. For a pixel inside the rectangle, the windowed mode (\<open>r >= 1\<close>) on a window
  clipped to exactly one element leaves the same store as the pointwise mode \<open>r = 0\<close>:
  the variance written is \<open>0.25*(a[idx]-b[idx])^2\<close>. The variance cell is not the cell
  \<open>a[idx]\<close> or \<open>b[idx]\<close>.
\<close>

theorem combine_halves_single_window:
  assumes r: "1 \<le> r" and inr: "in_rect rect x y" and ok: "rect_ok rect"
    and w: "window_ok x y r"
    and one: "length (window_pixels rect x y r) = 1"
    and idx: "idx = rect_index_spec rect x y"
    and noalias: "variance + idx \<noteq> a + idx" "variance + idx \<noteq> b + idx"
  shows "kernel_filter_combine_halves x y mean variance a b rect r m
         = kernel_filter_combine_halves x y mean variance a b rect 0 m"
proof (cases "variance = 0")
  case True
  show ?thesis
    unfolding True by (rule combine_halves_null_variance)
next
  case False
  define m1 where "m1 = (if mean \<noteq> 0
                   then m(mean + idx := fmul (Fin (1 / 2)) (fadd (m (a + idx)) (m (b + idx))))
                   else m)"
  define m2 where "m2 = m1(variance + idx := Fin 0)"
  have r0: "0 \<le> r" using r by simp
  have n: "(1::int) = int (length (window_pixels rect x y r))" "(1::int) \<le> 25"
    using one by simp_all
  have px: "window_pixels rect x y r = [(x, y)]"
    using one window_count_bounds(1) [OF r0 inr] by (rule singleton_list)
  have vals: "window_values m2 a b rect x y r = [half_variance m1 a b idx]"
    using noalias by (simp add: window_values_def px idx half_variance_def m2_def)
  have srt: "insertion_sort [half_variance m1 a b idx] 1 1 = [half_variance m1 a b idx]"
    using insertion_sort_stop [of 1 "[half_variance m1 a b idx]" 1] by simp
  have i: "pixel_idx rect (align_up (sub32 (int4_z rect) (int4_x rect)) 4) x y = idx"
    using pixel_idx_exact(1) [OF ok inr] by (simp add: idx rect_index_spec_def)
  have zero: "kernel_filter_combine_halves x y mean variance a b rect 0 m
              = Some (m1(variance + idx := half_variance m1 a b idx))"
    using False by (simp add: kernel_filter_combine_halves_def Let_def i m1_def half_variance_def)
  show ?thesis
    unfolding combine_halves_windowed [OF r inr ok w n False idx m1_def m2_def] zero vals srt
    by (simp add: m2_def)
qed

theorem combine_halves_single_window_witness:
  "kernel_filter_combine_halves 0 0 0 7000 1015 1014 rect1 1 mem0
   = kernel_filter_combine_halves 0 0 0 7000 1015 1014 rect1 0 mem0
   \<and> kernel_filter_combine_halves 0 0 0 7000 1015 1014 rect1 0 mem0
     = Some (mem0(7000 := Fin 1))"
proof -
  have h: "(1::int) \<le> 1" "(0::int) = rect_index_spec rect1 0 0"
    "(7000::int) + 0 \<noteq> 1015 + 0" "(7000::int) + 0 \<noteq> 1014 + 0"
    by (simp_all add: rect1_window)
  have z: "kernel_filter_combine_halves 0 0 0 7000 1015 1014 rect1 0 mem0
           = Some (mem0(7000 := Fin 1))"
    by (simp add: kernel_filter_combine_halves_def Let_def pixel_idx_def rect1_def align_up_def
        sub32_def add32_def mul32_def i32_def mem0_def fsub_def)
  show ?thesis
    using combine_halves_single_window [OF h(1) rect1_window(2) rect1_window(1) rect1_window(3)
        rect1_window(4) h(2) h(3) h(4), of 0 mem0] z
    by simp
qed



section \<open>The result of reading custom data\<close>

text \<open>
  Claim C3. A read of a layer that finds an array sample whose element count differs from
  \<open>num_data\<close> returns \<open>PTC_READ_SAMPLE_INVALID\<close>, and the claim wants this result handed
  to the caller of \<open>CustomDataReader::read_sample\<close>. The reader drops it: for a store
  whose colour layer has 3 elements and \<open>num_data = 4\<close>, the read of the layer is
  invalid, and the reader still adds the layer and returns \<open>PTC_READ_SAMPLE_EXACT\<close>.
\<close>

theorem read_sample_invalid_dropped:
  "int (sample_size store0 ''cd:MCol:N0'') \<noteq> 4
   \<and> read_sample_call 0 store0 CD_MCOL ''cd:MCol:N0'' 4 = PTC_READ_SAMPLE_INVALID
   \<and> CustomDataReader_read_sample layertype_name0 shift_mask0 reader0 store0 [] 4
     = (PTC_READ_SAMPLE_EXACT, [(CD_MCOL, '''')])"
proof -
  have a: "int (sample_size store0 ''cd:MCol:N0'') \<noteq> 4"
    by (simp add: store0_def)
  show ?thesis
    using a read_sample_call_mismatch(1) [OF a] read_types_store0
    by (simp add: CustomDataReader_read_sample_def CD_MCOL_def)
qed

end
